theory Spec2Isabelle
  imports Complex_Main "HOL-Library.Char_ord" "HOL-Library.List_Lexorder"
    "HOL-Library.Product_Lexorder"
begin

section \<open>Data model (src/app.py, lines 32-128)\<close>

text \<open>
  The six mapped classes of \<^verbatim>\<open>app.py\<close> become records, one field per column, in the order
  of the source. An \<^verbatim>\<open>Integer\<close> column is an \<open>int\<close>, a nullable column an \<open>option\<close>,
  a \<^verbatim>\<open>String\<close>/\<^verbatim>\<open>Text\<close> column a \<open>string\<close>. A \<^verbatim>\<open>Float\<close> column is a rational: every
  finite float is one, and sums are those of exact arithmetic, so rounding is not part of
  the model. A \<^verbatim>\<open>date\<close> is its proleptic Gregorian ordinal (\<^verbatim>\<open>date.toordinal()\<close>, day 1 is
  Monday 0001-01-01), a \<^verbatim>\<open>datetime\<close> a date with the microseconds since midnight.
  Field names carry a prefix where two tables share a column name.
\<close>

type_synonym date = int

record datetime =
  dt_date :: date
  dt_usec :: nat

record user =
  u_id :: int
  username :: string
  email :: string
  password_hash :: string
  role :: string
  u_created_at :: datetime

record project =
  p_id :: int
  p_name :: string
  p_description :: "string option"
  category :: string
  p_status :: string
  p_priority :: string
  p_start_date :: datetime
  due_date :: "datetime option"
  manager_id :: "int option"

record task =
  t_id :: int
  title :: string
  t_description :: "string option"
  t_status :: string
  t_priority :: string
  estimate_hours :: rat
  dependency_task_id :: "int option"
  sprint_id :: "int option"
  t_project_id :: "int option"
  assigned_to_id :: "int option"
  t_created_at :: datetime

record time_log =
  l_id :: int
  hours :: rat
  log_date :: datetime
  task_id :: "int option"
  l_user_id :: "int option"

record risk =
  r_id :: int
  r_name :: string
  r_description :: "string option"
  probability :: string
  impact :: string
  mitigation_plan :: "string option"
  r_status :: string
  r_project_id :: "int option"
  owner_id :: "int option"

record sprint =
  s_id :: int
  s_name :: string
  s_start_date :: "datetime option"
  s_end_date :: "datetime option"
  s_project_id :: "int option"
  s_status :: string

text \<open>The mapped classes, as the values passed for \<^verbatim>\<open>model\<close>, and their instances.\<close>

datatype model = User | Project | Task | TimeLog | Risk | Sprint

datatype entity =
    EUser user
  | EProject project
  | ETask task
  | ETimeLog time_log
  | ERisk risk
  | ESprint sprint

text \<open>The tables of the database, each in rowid order.\<close>

record database =
  users :: "user list"
  projects :: "project list"
  tasks :: "task list"
  time_logs :: "time_log list"
  risks :: "risk list"
  sprints :: "sprint list"

section \<open>The session (unit of work)\<close>

text \<open>
  \<^verbatim>\<open>DatabaseManager\<close> holds one SQLAlchemy session for its whole life. The model keeps
  two parts of it: the committed rows, and the attribute assignments made on loaded
  objects that no commit or rollback has yet seen (\<open>dirty\<close>: the object's current state,
  keyed by class and primary key).
\<close>

record session =
  store :: database
  dirty :: "entity list"

datatype db_exception = IntegrityError | OtherError

text \<open>Python truthiness of an optional integer: \<^verbatim>\<open>None\<close> and \<^verbatim>\<open>0\<close> are falsy.\<close>

fun truthy :: "int option \<Rightarrow> bool" where
  "truthy None = False"
| "truthy (Some n) = (n \<noteq> 0)"

text \<open>
  An \<^verbatim>\<open>INTEGER PRIMARY KEY\<close> that the application leaves unset is the rowid that SQLite
  picks: one more than the largest in the table, 1 in an empty table. No constructor call
  of \<^verbatim>\<open>app.py\<close> passes an \<^verbatim>\<open>id\<close>, so an insert always assigns it.
\<close>

definition next_id :: "int list \<Rightarrow> int" where
  "next_id ids = (case ids of [] \<Rightarrow> 1 | i # js \<Rightarrow> fold max js i + 1)"

text \<open>
  INSERT of one new row. The only constraints beyond the primary key that the schema
  declares and SQLite enforces are \<^verbatim>\<open>unique=True\<close> on \<^verbatim>\<open>users.username\<close> and
  \<^verbatim>\<open>users.email\<close> (lines 36-37); the \<^verbatim>\<open>nullable=False\<close> columns are not optional in the
  records, and SQLite does not check foreign keys unless asked to.
\<close>

fun insert_row :: "database \<Rightarrow> entity \<Rightarrow> db_exception + database" where
  "insert_row d (EUser u) =
     (if username u \<in> set (map username (users d)) \<or> email u \<in> set (map email (users d))
      then Inl IntegrityError
      else Inr (d\<lparr>users := users d @ [u\<lparr>u_id := next_id (map u_id (users d))\<rparr>]\<rparr>))"
| "insert_row d (EProject p) =
     Inr (d\<lparr>projects := projects d @ [p\<lparr>p_id := next_id (map p_id (projects d))\<rparr>]\<rparr>)"
| "insert_row d (ETask t) =
     Inr (d\<lparr>tasks := tasks d @ [t\<lparr>t_id := next_id (map t_id (tasks d))\<rparr>]\<rparr>)"
| "insert_row d (ETimeLog l) =
     Inr (d\<lparr>time_logs := time_logs d @ [l\<lparr>l_id := next_id (map l_id (time_logs d))\<rparr>]\<rparr>)"
| "insert_row d (ERisk r) =
     Inr (d\<lparr>risks := risks d @ [r\<lparr>r_id := next_id (map r_id (risks d))\<rparr>]\<rparr>)"
| "insert_row d (ESprint s) =
     Inr (d\<lparr>sprints := sprints d @ [s\<lparr>s_id := next_id (map s_id (sprints d))\<rparr>]\<rparr>)"

text \<open>UPDATE of the row with the object's primary key, under the same constraints.\<close>

fun update_row :: "database \<Rightarrow> entity \<Rightarrow> db_exception + database" where
  "update_row d (EUser u) =
     (let others = filter (\<lambda>v. u_id v \<noteq> u_id u) (users d)
      in if username u \<in> set (map username others) \<or> email u \<in> set (map email others)
         then Inl IntegrityError
         else Inr (d\<lparr>users := map (\<lambda>v. if u_id v = u_id u then u else v) (users d)\<rparr>))"
| "update_row d (EProject p) =
     Inr (d\<lparr>projects := map (\<lambda>v. if p_id v = p_id p then p else v) (projects d)\<rparr>)"
| "update_row d (ETask t) =
     Inr (d\<lparr>tasks := map (\<lambda>v. if t_id v = t_id t then t else v) (tasks d)\<rparr>)"
| "update_row d (ETimeLog l) =
     Inr (d\<lparr>time_logs := map (\<lambda>v. if l_id v = l_id l then l else v) (time_logs d)\<rparr>)"
| "update_row d (ERisk r) =
     Inr (d\<lparr>risks := map (\<lambda>v. if r_id v = r_id r then r else v) (risks d)\<rparr>)"
| "update_row d (ESprint s) =
     Inr (d\<lparr>sprints := map (\<lambda>v. if s_id v = s_id s then s else v) (sprints d)\<rparr>)"

text \<open>A flush writes the pending changes one after the other and stops at the first error.\<close>

fun flush :: "(database \<Rightarrow> entity \<Rightarrow> db_exception + database) \<Rightarrow> database \<Rightarrow> entity list
    \<Rightarrow> db_exception + database" where
  "flush f d [] = Inr d"
| "flush f d (e # es) = (case f d e of Inl x \<Rightarrow> Inl x | Inr d' \<Rightarrow> flush f d' es)"

text \<open>
  DELETE, with what the relationships declare. \<^verbatim>\<open>cascade="all, delete-orphan"\<close> on
  \<^verbatim>\<open>Project.tasks\<close>, \<^verbatim>\<open>Project.sprints\<close>, \<^verbatim>\<open>Project.risks\<close> (lines 61-63) and on
  \<^verbatim>\<open>Task.time_logs\<close> (line 83) deletes every member of the collection with its owner,
  and so on recursively. A one-to-many collection without a delete cascade
  (\<^verbatim>\<open>Sprint.tasks\<close>, the backref \<^verbatim>\<open>dependent_tasks\<close>, and the four collections of
  \<^verbatim>\<open>User\<close>) has the foreign key of its remaining members set to NULL instead.
\<close>

definition delete_task :: "task \<Rightarrow> database \<Rightarrow> database" where
  "delete_task t d =
     d\<lparr>time_logs := filter (\<lambda>l. task_id l \<noteq> Some (t_id t)) (time_logs d),
       tasks := map (\<lambda>x. if dependency_task_id x = Some (t_id t)
                            then x\<lparr>dependency_task_id := None\<rparr> else x)
                  (filter (\<lambda>x. t_id x \<noteq> t_id t) (tasks d))\<rparr>"

definition delete_sprint :: "sprint \<Rightarrow> database \<Rightarrow> database" where
  "delete_sprint sp d =
     d\<lparr>sprints := filter (\<lambda>x. s_id x \<noteq> s_id sp) (sprints d),
       tasks := map (\<lambda>x. if sprint_id x = Some (s_id sp) then x\<lparr>sprint_id := None\<rparr> else x)
                  (tasks d)\<rparr>"

definition delete_risk :: "risk \<Rightarrow> database \<Rightarrow> database" where
  "delete_risk r d = d\<lparr>risks := filter (\<lambda>x. r_id x \<noteq> r_id r) (risks d)\<rparr>"

definition delete_time_log :: "time_log \<Rightarrow> database \<Rightarrow> database" where
  "delete_time_log l d = d\<lparr>time_logs := filter (\<lambda>x. l_id x \<noteq> l_id l) (time_logs d)\<rparr>"

definition delete_project :: "project \<Rightarrow> database \<Rightarrow> database" where
  "delete_project p d =
     (let d1 = fold delete_task (filter (\<lambda>t. t_project_id t = Some (p_id p)) (tasks d)) d;
          d2 = fold delete_sprint (filter (\<lambda>s. s_project_id s = Some (p_id p)) (sprints d)) d1;
          d3 = fold delete_risk (filter (\<lambda>r. r_project_id r = Some (p_id p)) (risks d)) d2
      in d3\<lparr>projects := filter (\<lambda>x. p_id x \<noteq> p_id p) (projects d3)\<rparr>)"

definition delete_user :: "user \<Rightarrow> database \<Rightarrow> database" where
  "delete_user u d =
     d\<lparr>users := filter (\<lambda>x. u_id x \<noteq> u_id u) (users d),
       projects := map (\<lambda>x. if manager_id x = Some (u_id u) then x\<lparr>manager_id := None\<rparr> else x)
                     (projects d),
       tasks := map (\<lambda>x. if assigned_to_id x = Some (u_id u)
                            then x\<lparr>assigned_to_id := None\<rparr> else x) (tasks d),
       time_logs := map (\<lambda>x. if l_user_id x = Some (u_id u) then x\<lparr>l_user_id := None\<rparr> else x)
                      (time_logs d),
       risks := map (\<lambda>x. if owner_id x = Some (u_id u) then x\<lparr>owner_id := None\<rparr> else x)
                  (risks d)\<rparr>"

text \<open>Whether the object's row is in its table; deleting an object that has none raises.\<close>

fun persistent :: "database \<Rightarrow> entity \<Rightarrow> bool" where
  "persistent d (EUser u) = (u_id u \<in> set (map u_id (users d)))"
| "persistent d (EProject p) = (p_id p \<in> set (map p_id (projects d)))"
| "persistent d (ETask t) = (t_id t \<in> set (map t_id (tasks d)))"
| "persistent d (ETimeLog l) = (l_id l \<in> set (map l_id (time_logs d)))"
| "persistent d (ERisk r) = (r_id r \<in> set (map r_id (risks d)))"
| "persistent d (ESprint sp) = (s_id sp \<in> set (map s_id (sprints d)))"

fun delete_row :: "database \<Rightarrow> entity \<Rightarrow> db_exception + database" where
  "delete_row d e =
     (if \<not> persistent d e then Inl OtherError
      else Inr (case e of
                  EUser u \<Rightarrow> delete_user u d
                | EProject p \<Rightarrow> delete_project p d
                | ETask t \<Rightarrow> delete_task t d
                | ETimeLog l \<Rightarrow> delete_time_log l d
                | ERisk r \<Rightarrow> delete_risk r d
                | ESprint sp \<Rightarrow> delete_sprint sp d))"

text \<open>
  \<^verbatim>\<open>session.commit()\<close> after \<open>new\<close> objects were added and \<open>deleted\<close> objects marked.
  With nothing to flush (no pending assignment, no new and no deleted object) the commit
  sends nothing to the engine and succeeds, whatever state the engine is in. Otherwise
  the dirty objects, the new ones and the deletions are flushed in one transaction, which
  is committed whole or not at all. \<open>engine_ok\<close> is the environment: whether the engine
  carries the transaction out, or raises an error of its own (a locked or unwritable
  database file), which is an exception other than \<^verbatim>\<open>IntegrityError\<close>.
\<close>

definition commit :: "bool \<Rightarrow> session \<Rightarrow> entity list \<Rightarrow> entity list \<Rightarrow> db_exception + session" where
  "commit engine_ok s new deleted =
     (if dirty s = [] \<and> new = [] \<and> deleted = [] then Inr s
      else if \<not> engine_ok then Inl OtherError
      else case flush update_row (store s) (dirty s) of
             Inl x \<Rightarrow> Inl x
           | Inr d \<Rightarrow> (case flush insert_row d new of
                         Inl x \<Rightarrow> Inl x
                       | Inr d' \<Rightarrow> (case flush delete_row d' deleted of
                                      Inl x \<Rightarrow> Inl x
                                    | Inr d'' \<Rightarrow> Inr \<lparr>store = d'', dirty = []\<rparr>)))"

text \<open>\<^verbatim>\<open>session.rollback()\<close>: the transaction is undone and every pending change is dropped.\<close>

definition rollback :: "session \<Rightarrow> session" where
  "rollback s = s\<lparr>dirty := []\<rparr>"

section \<open>DatabaseManager: generic CRUD (lines 196-247)\<close>

text \<open>
  \<^verbatim>\<open>create\<close> (lines 196-207). Both \<^verbatim>\<open>except\<close> branches roll back and return \<^verbatim>\<open>False\<close>;
  the second one also shows the error on the page, which is not part of the result.
  No exception leaves the function: it returns a boolean on every path.
\<close>

definition create :: "bool \<Rightarrow> session \<Rightarrow> entity \<Rightarrow> bool \<times> session" where
  "create engine_ok s entity =
     (case commit engine_ok s [entity] [] of
        Inr s' \<Rightarrow> (True, s')
      | Inl IntegrityError \<Rightarrow> (False, rollback s)
      | Inl OtherError \<Rightarrow> (False, rollback s))"

text \<open>
  \<^verbatim>\<open>read_all\<close> (lines 209-212). \<^verbatim>\<open>hasattr(model, 'project_id')\<close> holds for the three
  classes that declare the column (lines 77, 111, 124). The comparison is SQL equality, so
  a row whose \<^verbatim>\<open>project_id\<close> is NULL matches no filter.
\<close>

fun has_project_id :: "model \<Rightarrow> bool" where
  "has_project_id Task = True"
| "has_project_id Risk = True"
| "has_project_id Sprint = True"
| "has_project_id User = False"
| "has_project_id Project = False"
| "has_project_id TimeLog = False"

fun query :: "database \<Rightarrow> model \<Rightarrow> entity list" where
  "query d User = map EUser (users d)"
| "query d Project = map EProject (projects d)"
| "query d Task = map ETask (tasks d)"
| "query d TimeLog = map ETimeLog (time_logs d)"
| "query d Risk = map ERisk (risks d)"
| "query d Sprint = map ESprint (sprints d)"

fun project_id :: "entity \<Rightarrow> int option" where
  "project_id (ETask t) = t_project_id t"
| "project_id (ERisk r) = r_project_id r"
| "project_id (ESprint sp) = s_project_id sp"
| "project_id _ = None"

definition read_all :: "session \<Rightarrow> model \<Rightarrow> int option \<Rightarrow> entity list" where
  "read_all s model pid =
     (if truthy pid \<and> has_project_id model
      then filter (\<lambda>e. project_id e = pid) (query (store s) model)
      else query (store s) model)"

text \<open>\<^verbatim>\<open>read_by_id\<close> (lines 214-215): the row with that primary key, or \<^verbatim>\<open>None\<close>.\<close>

fun primary_key :: "entity \<Rightarrow> int" where
  "primary_key (EUser u) = u_id u"
| "primary_key (EProject p) = p_id p"
| "primary_key (ETask t) = t_id t"
| "primary_key (ETimeLog l) = l_id l"
| "primary_key (ERisk r) = r_id r"
| "primary_key (ESprint sp) = s_id sp"

definition read_by_id :: "session \<Rightarrow> model \<Rightarrow> int \<Rightarrow> entity option" where
  "read_by_id s model i = find (\<lambda>e. primary_key e = i) (query (store s) model)"

text \<open>
  \<^verbatim>\<open>update\<close> (lines 217-225). Every caller passes an object that this session loaded
  (\<^verbatim>\<open>read_all\<close>, \<^verbatim>\<open>read_by_id\<close>) and then assigned to. \<^verbatim>\<open>session.merge\<close> of the session's
  own object returns it as it is; the assignments are already pending in the session, and
  the commit writes them. When an earlier commit or rollback has already taken them,
  nothing is left to write and the result is \<^verbatim>\<open>True\<close>.
\<close>

definition update :: "bool \<Rightarrow> session \<Rightarrow> entity \<Rightarrow> bool \<times> session" where
  "update engine_ok s entity =
     (case commit engine_ok s [] [] of
        Inr s' \<Rightarrow> (True, s')
      | Inl _ \<Rightarrow> (False, rollback s))"

text \<open>\<^verbatim>\<open>delete\<close> (lines 227-235).\<close>

definition delete :: "bool \<Rightarrow> session \<Rightarrow> entity \<Rightarrow> bool \<times> session" where
  "delete engine_ok s entity =
     (case commit engine_ok s [] [entity] of
        Inr s' \<Rightarrow> (True, s')
      | Inl _ \<Rightarrow> (False, rollback s))"

text \<open>
  \<^verbatim>\<open>get_total_logged_hours\<close> (lines 245-247): Python's \<^verbatim>\<open>sum\<close> over the hours of the
  task's logs, which is 0 when there are none.
\<close>

definition get_total_logged_hours :: "session \<Rightarrow> int \<Rightarrow> rat" where
  "get_total_logged_hours s tid =
     sum_list (map hours (filter (\<lambda>l. task_id l = Some tid) (time_logs (store s))))"

text \<open>
  Assigning to an attribute of a loaded object, as the page handlers do before they call
  \<^verbatim>\<open>update\<close>: the object, in its new state, is pending until the next commit or rollback.
\<close>

fun same_object :: "entity \<Rightarrow> entity \<Rightarrow> bool" where
  "same_object (EUser a) (EUser b) = (u_id a = u_id b)"
| "same_object (EProject a) (EProject b) = (p_id a = p_id b)"
| "same_object (ETask a) (ETask b) = (t_id a = t_id b)"
| "same_object (ETimeLog a) (ETimeLog b) = (l_id a = l_id b)"
| "same_object (ERisk a) (ERisk b) = (r_id a = r_id b)"
| "same_object (ESprint a) (ESprint b) = (s_id a = s_id b)"
| "same_object _ _ = False"

definition assign :: "session \<Rightarrow> entity \<Rightarrow> session" where
  "assign s e = s\<lparr>dirty := filter (\<lambda>x. \<not> same_object x e) (dirty s) @ [e]\<rparr>"

section \<open>AuthService.authenticate (lines 259-269)\<close>

text \<open>
  What the caller of \<^verbatim>\<open>authenticate\<close> can observe: the boolean it returns, the page's
  \<^verbatim>\<open>st.session_state\<close> afterwards, and the toasts shown. SHA-256 is a parameter
  (\<open>hash_password\<close>): the function only compares its output. \<^verbatim>\<open>filter_by(...).first()\<close>
  is the first matching row, and a loaded object is always truthy.
\<close>

record session_state =
  is_authenticated :: bool
  ss_username :: "string option"
  user_role :: "string option"
  ss_user_id :: "int option"
  current_page :: string
  show_task_form :: bool

definition authenticate :: "(string \<Rightarrow> string) \<Rightarrow> session \<Rightarrow> session_state \<Rightarrow> string \<Rightarrow> string
    \<Rightarrow> bool \<times> session_state \<times> string list" where
  "authenticate hash_password s st uname password =
     (case find (\<lambda>u. username u = uname) (users (store s)) of
        Some u \<Rightarrow>
          if password_hash u = hash_password password
          then (True,
                st\<lparr>is_authenticated := True, ss_username := Some (username u),
                   user_role := Some (role u), ss_user_id := Some (u_id u),
                   current_page := ''Dashboard''\<rparr>,
                [''Welcome back, '' @ username u @ '' ('' @ role u @ '')!''])
          else (False, st, [])
      | None \<Rightarrow> (False, st, []))"

section \<open>Kanban: the "Move & Log" handler (lines 720-731)\<close>

text \<open>
  The handler assigns the new status to the loaded task, creates a time log when hours
  were entered (ignoring what \<^verbatim>\<open>create\<close> returns), and calls \<^verbatim>\<open>update\<close>. The first
  commit after the assignment writes it, be it the one inside \<^verbatim>\<open>create\<close>; a rollback
  inside \<^verbatim>\<open>create\<close> drops it. The two booleans say whether the engine would carry out
  a transaction at the commit of \<^verbatim>\<open>create\<close> and at that of \<^verbatim>\<open>update\<close>; \<open>now\<close> is
  the clock that fills the \<^verbatim>\<open>log_date\<close> default. The result is whether the handler
  took its success branch (the toast "Task #... moved to ... and ...h logged!") or showed
  "Failed to update task.", and the session afterwards. A new object has no id before
  its insert; the field holds 0 until then.
\<close>

definition new_log :: "rat \<Rightarrow> int \<Rightarrow> int option \<Rightarrow> datetime \<Rightarrow> time_log" where
  "new_log hours_to_log tid uid now =
     \<lparr>l_id = 0, hours = hours_to_log, log_date = now, task_id = Some tid, l_user_id = uid\<rparr>"

definition move_and_log :: "bool \<Rightarrow> bool \<Rightarrow> datetime \<Rightarrow> session \<Rightarrow> session_state \<Rightarrow> task
    \<Rightarrow> string \<Rightarrow> rat \<Rightarrow> bool \<times> session" where
  "move_and_log create_ok update_ok now s st task new_status hours_to_log =
     (let task' = task\<lparr>t_status := new_status\<rparr>;
          s0 = assign s (ETask task');
          s1 = (if hours_to_log > 0
                then snd (create create_ok s0
                            (ETimeLog (new_log hours_to_log (t_id task) (ss_user_id st) now)))
                else s0)
      in update update_ok s1 (ETask task'))"

section \<open>Gantt page: the WBS view (lines 835-864)\<close>

text \<open>
  What the WBS block writes to the page: one markdown line per rendered node, whose text
  is fixed by the nesting level (the number of bullets is \<open>level + 1\<close>) and the task, or
  one of the three notices.
\<close>

datatype wbs_out = Node nat task | Info string | Warning string

text \<open>Line 844: the set of the truthy dependency references.\<close>

definition dependent_ids :: "task list \<Rightarrow> int set" where
  "dependent_ids project_tasks =
     set (map (\<lambda>t. the (dependency_task_id t))
            (filter (\<lambda>t. truthy (dependency_task_id t)) project_tasks))"

text \<open>Line 845.\<close>

definition top_level_tasks :: "task list \<Rightarrow> task list" where
  "top_level_tasks project_tasks =
     filter (\<lambda>t. t_id t \<notin> dependent_ids project_tasks \<and> \<not> truthy (dependency_task_id t))
       project_tasks"

text \<open>
  \<^verbatim>\<open>render_wbs_node\<close> (lines 848-855) calls itself for every task whose dependency
  reference is the current task's id, and nothing in it bounds the depth. The first
  argument is the depth still allowed: \<open>None\<close> says that the recursion went deeper. A call
  that gives \<open>None\<close> for every bound never returns (Python ends it with a
  \<^verbatim>\<open>RecursionError\<close> once the interpreter's limit is reached).
\<close>

fun render_wbs_node :: "nat \<Rightarrow> task list \<Rightarrow> task \<Rightarrow> nat \<Rightarrow> wbs_out list option" where
  "render_wbs_node 0 project_tasks task level = None"
| "render_wbs_node (Suc n) project_tasks task level =
     map_option (\<lambda>outs. Node level task # concat outs)
       (those (map (\<lambda>dependent_task. render_wbs_node n project_tasks dependent_task (level + 1))
                 (filter (\<lambda>t. dependency_task_id t = Some (t_id task)) project_tasks)))"

definition wbs :: "nat \<Rightarrow> task list \<Rightarrow> wbs_out list option" where
  "wbs depth project_tasks =
     (if project_tasks \<noteq> [] then
        (if top_level_tasks project_tasks \<noteq> [] then
           map_option
             (\<lambda>outs. Info ''Tasks are shown in order of completion (dependencies first).''
                     # concat outs)
             (those (map (\<lambda>task. render_wbs_node depth project_tasks task 0)
                       (top_level_tasks project_tasks)))
         else Some [Warning
           ''No clear top-level tasks or dependencies found. All tasks might be independent.''])
      else Some [Info ''No tasks available to generate WBS.''])"

text \<open>
  The page function reads the project's tasks (line 835) and renders them. It is given
  the session and hands it back, so that what it does to the store can be stated.
\<close>

fun the_tasks :: "entity list \<Rightarrow> task list" where
  "the_tasks [] = []"
| "the_tasks (ETask t # es) = t # the_tasks es"
| "the_tasks (_ # es) = the_tasks es"

definition gantt_page_wbs :: "nat \<Rightarrow> session \<Rightarrow> int \<Rightarrow> (session \<times> wbs_out list) option" where
  "gantt_page_wbs depth s selected_project_id =
     map_option (\<lambda>out. (s, out))
       (wbs depth (the_tasks (read_all s Task (Some selected_project_id))))"

section \<open>Python errors and relationships\<close>

text \<open>
  The exceptions that the page code below can raise, and the object that a many-to-one
  relationship attribute (\<^verbatim>\<open>log.user\<close>, \<^verbatim>\<open>task.assigned_to_user\<close>) gives: the row
  that the foreign key names, or \<^verbatim>\<open>None\<close>.
\<close>

datatype py_error = AttributeError | OverflowError

definition related :: "('a \<Rightarrow> int) \<Rightarrow> 'a list \<Rightarrow> int option \<Rightarrow> 'a option" where
  "related key rows fk = (case fk of None \<Rightarrow> None | Some i \<Rightarrow> find (\<lambda>r. key r = i) rows)"

section \<open>Gantt chart rows (lines 320-342)\<close>

text \<open>
  A \<^verbatim>\<open>timedelta\<close> is its length in microseconds. Its \<^verbatim>\<open>days\<close> attribute is the number
  of whole days in it, and the constructor raises \<^verbatim>\<open>OverflowError\<close> when that number
  is beyond 999999999 in either direction. \<^verbatim>\<open>timedelta(hours=h)\<close> rounds \<open>h\<close> hours to
  the nearest microsecond, ties to even. Adding a \<^verbatim>\<open>timedelta\<close> to a \<^verbatim>\<open>date\<close> adds
  its \<^verbatim>\<open>days\<close> and ignores the rest; the result is a \<^verbatim>\<open>date\<close> again, and the addition
  raises \<^verbatim>\<open>OverflowError\<close> when it leaves the years 1 to 9999 (the ordinals 1 to
  3652059).
\<close>

type_synonym timedelta = int

definition round_half_even :: "rat \<Rightarrow> int" where
  "round_half_even x =
     (let f = \<lfloor>x\<rfloor>; r = x - of_int f
      in if r < 1 / 2 then f else if r > 1 / 2 then f + 1 else if even f then f else f + 1)"

definition make_timedelta :: "int \<Rightarrow> py_error + timedelta" where
  "make_timedelta us =
     (if \<bar>us div 86400000000\<bar> > 999999999 then Inl OverflowError else Inr us)"

definition timedelta_hours :: "rat \<Rightarrow> py_error + timedelta" where
  "timedelta_hours h = make_timedelta (round_half_even (h * 3600000000))"

definition timedelta_days :: "int \<Rightarrow> py_error + timedelta" where
  "timedelta_days n = make_timedelta (n * 86400000000)"

definition date_add :: "date \<Rightarrow> timedelta \<Rightarrow> py_error + date" where
  "date_add d td =
     (let ordinal = d + td div 86400000000
      in if 0 < ordinal \<and> ordinal \<le> 3652059 then Inr ordinal else Inl OverflowError)"

text \<open>Line 331: the value assigned to \<^verbatim>\<open>end\<close>, given \<^verbatim>\<open>start\<close>.\<close>

definition gantt_end :: "task \<Rightarrow> date \<Rightarrow> py_error + date" where
  "gantt_end task start =
     (if estimate_hours task > 0
      then (case timedelta_hours (estimate_hours task) of
              Inl e \<Rightarrow> Inl e
            | Inr td \<Rightarrow> date_add start td)
      else (case timedelta_days 1 of
              Inl e \<Rightarrow> Inl e
            | Inr td \<Rightarrow> date_add start td))"

text \<open>
  Line 336 calls \<^verbatim>\<open>end.date()\<close>. \<^verbatim>\<open>end\<close> is a \<^verbatim>\<open>datetime.date\<close>, and a \<^verbatim>\<open>date\<close> has
  no attribute \<^verbatim>\<open>date\<close> (only a \<^verbatim>\<open>datetime\<close> has the method): the attribute access
  raises.
\<close>

definition date_of_date :: "date \<Rightarrow> py_error + date" where
  "date_of_date d = Inl AttributeError"

text \<open>
  Lines 327-342: the dictionary appended for one task. Its entries are evaluated in the
  order written, so \<^verbatim>\<open>Finish\<close> comes before \<^verbatim>\<open>Resource\<close>.
\<close>

record gantt_row =
  g_task :: string
  g_start :: date
  g_finish :: date
  g_resource :: string
  g_status :: string
  g_priority :: string
  g_duration :: rat
  g_logged :: rat

definition gantt_row_of :: "session \<Rightarrow> task \<Rightarrow> py_error + gantt_row" where
  "gantt_row_of s task =
     (let logged_hours = get_total_logged_hours s (t_id task);
          start = dt_date (t_created_at task)
      in case gantt_end task start of
           Inl e \<Rightarrow> Inl e
         | Inr end' \<Rightarrow>
            (case date_of_date end' of
               Inl e \<Rightarrow> Inl e
             | Inr finish \<Rightarrow>
                (case related u_id (users (store s)) (assigned_to_id task) of
                   None \<Rightarrow> Inl AttributeError
                 | Some u \<Rightarrow>
                    Inr \<lparr>g_task = title task, g_start = start, g_finish = finish,
                         g_resource = username u, g_status = t_status task,
                         g_priority = t_priority task, g_duration = estimate_hours task,
                         g_logged = logged_hours\<rparr>)))"

fun df_data :: "session \<Rightarrow> task list \<Rightarrow> py_error + gantt_row list" where
  "df_data s [] = Inr []"
| "df_data s (task # ts) =
     (case gantt_row_of s task of
        Inl e \<Rightarrow> Inl e
      | Inr r \<Rightarrow> (case df_data s ts of Inl e \<Rightarrow> Inl e | Inr rs \<Rightarrow> Inr (r # rs)))"

text \<open>
  \<^verbatim>\<open>get_gantt_chart\<close> (lines 320-380): \<^verbatim>\<open>None\<close> for no tasks, otherwise the figure
  drawn from the rows, which stands here for the rows themselves. The list parameter
  \<^verbatim>\<open>tasks\<close> is \<open>ts\<close> here, since \<open>tasks\<close> is the table of the store.
\<close>

definition get_gantt_chart :: "session \<Rightarrow> task list \<Rightarrow> py_error + gantt_row list option" where
  "get_gantt_chart s ts =
     (if ts = [] then Inr None
      else case df_data s ts of Inl e \<Rightarrow> Inl e | Inr rows \<Rightarrow> Inr (Some rows))"

section \<open>Reports: weekly logged hours (lines 997-1016)\<close>

text \<open>
  One row of \<^verbatim>\<open>log_data\<close> per time log. The row reads the log's user, task and the task's
  project through the relationships; where one of them is missing the attribute access
  on \<^verbatim>\<open>None\<close> raises. The date column is the log's date; it is written as text and parsed
  back (lines 1008, 1014), which gives the same date.
\<close>

record log_row =
  lr_user :: string
  lr_task_id :: int
  lr_task_title :: string
  lr_project :: string
  lr_hours :: rat
  lr_date :: date

definition log_row_of :: "database \<Rightarrow> time_log \<Rightarrow> py_error + log_row" where
  "log_row_of d l =
     (case related u_id (users d) (l_user_id l) of
        None \<Rightarrow> Inl AttributeError
      | Some u \<Rightarrow>
         (case related t_id (tasks d) (task_id l) of
            None \<Rightarrow> Inl AttributeError
          | Some t \<Rightarrow>
             (case related p_id (projects d) (t_project_id t) of
                None \<Rightarrow> Inl AttributeError
              | Some p \<Rightarrow>
                 Inr \<lparr>lr_user = username u, lr_task_id = t_id t, lr_task_title = title t,
                      lr_project = p_name p, lr_hours = hours l,
                      lr_date = dt_date (log_date l)\<rparr>)))"

fun log_data :: "database \<Rightarrow> time_log list \<Rightarrow> py_error + log_row list" where
  "log_data d [] = Inr []"
| "log_data d (l # ls) =
     (case log_row_of d l of
        Inl e \<Rightarrow> Inl e
      | Inr r \<Rightarrow> (case log_data d ls of Inl e \<Rightarrow> Inl e | Inr rs \<Rightarrow> Inr (r # rs)))"

text \<open>
  \<^verbatim>\<open>to_period('W')\<close> (line 1014): the weekly period that holds the date. The frequency
  \<^verbatim>\<open>W\<close> is anchored on Sunday: a period is the seven days that end on a Sunday, and its
  text is "first day/last day". \<^verbatim>\<open>weekday\<close> is Python's: Monday is 0.
\<close>

definition weekday :: "date \<Rightarrow> int" where
  "weekday d = (d + 6) mod 7"

definition to_period_W :: "date \<Rightarrow> date \<times> date" where
  "to_period_W d = (let sunday = d + (6 - weekday d) in (sunday - 6, sunday))"

text \<open>
  \<^verbatim>\<open>groupby(['User', 'Week'])['Hours Logged'].sum().reset_index()\<close> (line 1015): one
  row per key that occurs, in the order of the keys, with the sum of the group's hours.
\<close>

definition week_key :: "log_row \<Rightarrow> string \<times> date \<times> date" where
  "week_key r = (lr_user r, to_period_W (lr_date r))"

definition weekly_summary :: "log_row list \<Rightarrow> ((string \<times> date \<times> date) \<times> rat) list" where
  "weekly_summary df_logs =
     map (\<lambda>k. (k, sum_list (map lr_hours (filter (\<lambda>r. week_key r = k) df_logs))))
       (sort (remdups (map week_key df_logs)))"

text \<open>
  The ISO 8601 week, in the words of the standard: weeks run from Monday (day 1) to
  Sunday (day 7), so a week is named by its Monday.
\<close>

definition isoweekday :: "date \<Rightarrow> int" where
  "isoweekday d = (d - 1) mod 7 + 1"

definition iso_week :: "date \<Rightarrow> date" where
  "iso_week d = d - (isoweekday d - 1)"

section \<open>Row keys\<close>

text \<open>
  Deleting a task or a sprint also rewrites columns of rows that stay (a foreign key set
  to NULL), so what stays of the table of tasks is stated on the two columns that no
  delete rewrites: the primary key and the project.
\<close>

definition task_key :: "task \<Rightarrow> int \<times> int option" where
  "task_key t = (t_id t, t_project_id t)"

section \<open>Example data\<close>

text \<open>
  The rows that \<^verbatim>\<open>_seed_initial_data\<close> (lines 145-193) writes into an empty database, with
  the clock at Monday 2024-01-01 (ordinal 738886) and a stand-in for SHA-256.
\<close>

definition seed_time :: datetime where
  "seed_time = \<lparr>dt_date = 738886, dt_usec = 0\<rparr>"

definition seed_hash :: "string \<Rightarrow> string" where
  "seed_hash password = ''sha256:'' @ password"

definition seed_users :: "user list" where
  "seed_users =
     [\<lparr>u_id = 1, username = ''admin'', email = ''admin@tool.com'',
       password_hash = seed_hash ''adminpass'', role = ''Admin'', u_created_at = seed_time\<rparr>,
      \<lparr>u_id = 2, username = ''manager'', email = ''manager@tool.com'',
       password_hash = seed_hash ''managerpass'', role = ''Project Manager'',
       u_created_at = seed_time\<rparr>,
      \<lparr>u_id = 3, username = ''member'', email = ''member@tool.com'',
       password_hash = seed_hash ''memberpass'', role = ''Team Member'',
       u_created_at = seed_time\<rparr>]"

definition project_core :: project where
  "project_core =
     \<lparr>p_id = 1, p_name = ''Tool Core Development'',
      p_description = Some ''Develop the core features and database.'',
      category = ''Software'', p_status = ''In Progress'', p_priority = ''High'',
      p_start_date = seed_time, due_date = Some \<lparr>dt_date = 738976, dt_usec = 0\<rparr>,
      manager_id = Some 2\<rparr>"

definition project_marketing :: project where
  "project_marketing =
     \<lparr>p_id = 2, p_name = ''Q4 Marketing Strategy'',
      p_description = Some ''Plan and execute holiday marketing campaign.'',
      category = ''Marketing'', p_status = ''Planning'', p_priority = ''Medium'',
      p_start_date = seed_time, due_date = Some \<lparr>dt_date = 738931, dt_usec = 0\<rparr>,
      manager_id = Some 1\<rparr>"

definition seed_projects :: "project list" where
  "seed_projects = [project_core, project_marketing]"

definition seed_sprints :: "sprint list" where
  "seed_sprints =
     [\<lparr>s_id = 1, s_name = ''Sprint 1: Auth & DB'', s_start_date = Some seed_time,
       s_end_date = Some \<lparr>dt_date = 738900, dt_usec = 0\<rparr>, s_project_id = Some 1,
       s_status = ''Active''\<rparr>]"

definition task_kanban :: task where
  "task_kanban =
     \<lparr>t_id = 1, title = ''Implement Kanban View'', t_description = None,
      t_status = ''In Progress'', t_priority = ''Urgent'', estimate_hours = 8,
      dependency_task_id = Some 2, sprint_id = Some 1, t_project_id = Some 1,
      assigned_to_id = Some 3, t_created_at = seed_time\<rparr>"

definition task_schema :: task where
  "task_schema =
     \<lparr>t_id = 2, title = ''Design Database Schema'', t_description = None,
      t_status = ''Done'', t_priority = ''High'', estimate_hours = 12,
      dependency_task_id = None, sprint_id = None, t_project_id = Some 1,
      assigned_to_id = Some 1, t_created_at = seed_time\<rparr>"

definition task_testing :: task where
  "task_testing =
     \<lparr>t_id = 3, title = ''Launch User Testing Phase 1'', t_description = None,
      t_status = ''To Do'', t_priority = ''High'', estimate_hours = 20,
      dependency_task_id = None, sprint_id = None, t_project_id = Some 2,
      assigned_to_id = Some 2, t_created_at = seed_time\<rparr>"

definition seed_tasks :: "task list" where
  "seed_tasks = [task_kanban, task_schema, task_testing]"

definition seed_risks :: "risk list" where
  "seed_risks =
     [\<lparr>r_id = 1, r_name = ''Database Migration Failure'',
       r_description = Some ''Risk of data loss during production database switch.'',
       probability = ''High'', impact = ''High'',
       mitigation_plan = Some ''Perform dry run migration and full backup.'',
       r_status = ''Open'', r_project_id = Some 1, owner_id = Some 1\<rparr>]"

definition seed_time_logs :: "time_log list" where
  "seed_time_logs =
     [\<lparr>l_id = 1, hours = 9 / 2, log_date = seed_time, task_id = Some 2, l_user_id = Some 1\<rparr>]"

definition seeded :: session where
  "seeded =
     \<lparr>store = \<lparr>users = seed_users, projects = seed_projects, tasks = seed_tasks,
               time_logs = seed_time_logs, risks = seed_risks, sprints = seed_sprints\<rparr>,
      dirty = []\<rparr>"

text \<open>A user as the registration form builds it (lines 422-424), and a signed-in page.\<close>

definition new_user :: "string \<Rightarrow> string \<Rightarrow> user" where
  "new_user name mail =
     \<lparr>u_id = 0, username = name, email = mail, password_hash = seed_hash ''secret'',
      role = ''Team Member'', u_created_at = seed_time\<rparr>"

definition signed_in :: session_state where
  "signed_in =
     \<lparr>is_authenticated = True, ss_username = Some ''admin'', user_role = Some ''Admin'',
      ss_user_id = Some 1, current_page = ''Kanban'', show_task_form = False\<rparr>"

definition signed_out :: session_state where
  "signed_out =
     \<lparr>is_authenticated = False, ss_username = None, user_role = None,
      ss_user_id = None, current_page = ''Login'', show_task_form = False\<rparr>"

text \<open>A task whose estimate was left at zero.\<close>

definition task_unestimated :: task where
  "task_unestimated = task_testing\<lparr>estimate_hours := 0\<rparr>"

text \<open>
  The two task sets of the WBS examples, in one project: the chain in which C depends on
  B and B on A, and the same three tasks with A depending on C.
\<close>

definition wbs_task :: "int \<Rightarrow> string \<Rightarrow> int option \<Rightarrow> task" where
  "wbs_task i name dep =
     \<lparr>t_id = i, title = name, t_description = None, t_status = ''To Do'',
      t_priority = ''Medium'', estimate_hours = 4, dependency_task_id = dep,
      sprint_id = None, t_project_id = Some 1, assigned_to_id = Some 1,
      t_created_at = seed_time\<rparr>"

definition chain_tasks :: "task list" where
  "chain_tasks = [wbs_task 1 ''A'' None, wbs_task 2 ''B'' (Some 1), wbs_task 3 ''C'' (Some 2)]"

definition cyclic_tasks :: "task list" where
  "cyclic_tasks =
     [wbs_task 1 ''A'' (Some 3), wbs_task 2 ''B'' (Some 1), wbs_task 3 ''C'' (Some 2)]"

text \<open>
  Three time logs of the user "admin": on Monday 2024-01-01, on Wednesday 2024-01-03 and
  on Monday 2024-01-08; the database that holds them; and the row of \<^verbatim>\<open>log_data\<close> that
  such a log gives.
\<close>

definition week_logs :: "time_log list" where
  "week_logs =
     [\<lparr>l_id = 1, hours = 2, log_date = \<lparr>dt_date = 738886, dt_usec = 0\<rparr>,
       task_id = Some 2, l_user_id = Some 1\<rparr>,
      \<lparr>l_id = 2, hours = 7 / 2, log_date = \<lparr>dt_date = 738888, dt_usec = 0\<rparr>,
       task_id = Some 1, l_user_id = Some 1\<rparr>,
      \<lparr>l_id = 3, hours = 1, log_date = \<lparr>dt_date = 738893, dt_usec = 0\<rparr>,
       task_id = Some 2, l_user_id = Some 1\<rparr>]"

definition reporting :: database where
  "reporting = (store seeded)\<lparr>time_logs := week_logs\<rparr>"

definition week_row :: "int \<Rightarrow> string \<Rightarrow> rat \<Rightarrow> date \<Rightarrow> log_row" where
  "week_row tid name h day =
     \<lparr>lr_user = ''admin'', lr_task_id = tid, lr_task_title = name,
      lr_project = ''Tool Core Development'', lr_hours = h, lr_date = day\<rparr>"

lemmas seed_defs = seeded_def seed_users_def seed_projects_def seed_tasks_def seed_risks_def
  seed_time_logs_def seed_sprints_def seed_time_def seed_hash_def
  task_kanban_def task_schema_def task_testing_def project_core_def project_marketing_def

section \<open>Creating users\<close>

lemma create_user_fresh:
  assumes "dirty s = []"
    and "username u \<notin> set (map username (users (store s)))"
    and "email u \<notin> set (map email (users (store s)))"
  shows "create True s (EUser u) =
     (True, \<lparr>store = (store s)\<lparr>users := users (store s) @
                [u\<lparr>u_id := next_id (map u_id (users (store s)))\<rparr>]\<rparr>, dirty = []\<rparr>)"
  using assms by (simp add: create_def commit_def)

lemma create_user_taken:
  assumes "dirty s = []"
    and "username u \<in> set (map username (users (store s)))"
  shows "create engine_ok s (EUser u) = (False, s)"
  using assms by (cases engine_ok) (simp_all add: create_def commit_def rollback_def)

text \<open>
  C1, as stated, at the seeded store: the first of two creates of a user named "admin"
  already fails, because the seeding has taken the name.
\<close>

theorem create_first_fails_counterexample:
  "create True seeded (EUser (new_user ''admin'' ''other@tool.com'')) = (False, seeded)"
  by (simp add: create_def commit_def rollback_def seed_defs new_user_def)

text \<open>
  C1, amended: from a store in which neither the username nor the email of the first
  user is taken (and with nothing else pending in the session), the first create
  succeeds; the second create of a user with the same username returns \<open>False\<close>,
  whatever the engine does, and leaves the session as it was; the store then holds
  exactly one user with that username.
\<close>

theorem create_duplicate_username:
  assumes "dirty s = []"
    and "username u1 \<notin> set (map username (users (store s)))"
    and "email u1 \<notin> set (map email (users (store s)))"
    and "username u2 = username u1"
  shows "fst (create True s (EUser u1)) = True \<and>
         create engine_ok (snd (create True s (EUser u1))) (EUser u2)
           = (False, snd (create True s (EUser u1))) \<and>
         length (filter (\<lambda>u. username u = username u1)
                   (users (store (snd (create True s (EUser u1)))))) = 1"
proof -
  let ?s1 = "snd (create True s (EUser u1))"
  have s1: "create True s (EUser u1) =
     (True, \<lparr>store = (store s)\<lparr>users := users (store s) @
                [u1\<lparr>u_id := next_id (map u_id (users (store s)))\<rparr>]\<rparr>, dirty = []\<rparr>)"
    using assms(1-3) by (rule create_user_fresh)
  have none: "filter (\<lambda>u. username u = username u1) (users (store s)) = []"
    using assms(2) by (auto simp: filter_empty_conv intro: imageI rev_image_eqI)
  have "create engine_ok ?s1 (EUser u2) = (False, ?s1)"
    by (rule create_user_taken) (simp_all add: s1 assms(4))
  then show ?thesis by (simp add: s1 none)
qed

theorem create_duplicate_username_witness:
  "dirty seeded = [] \<and>
   username (new_user ''alice'' ''alice@tool.com'') \<notin> set (map username (users (store seeded))) \<and>
   email (new_user ''alice'' ''alice@tool.com'') \<notin> set (map email (users (store seeded))) \<and>
   fst (create True seeded (EUser (new_user ''alice'' ''alice@tool.com''))) = True \<and>
   create True (snd (create True seeded (EUser (new_user ''alice'' ''alice@tool.com''))))
       (EUser (new_user ''alice'' ''alice2@tool.com''))
     = (False, snd (create True seeded (EUser (new_user ''alice'' ''alice@tool.com'')))) \<and>
   length (filter (\<lambda>u. username u = ''alice'')
             (users (store (snd (create True seeded
                (EUser (new_user ''alice'' ''alice@tool.com''))))))) = 1"
proof -
  have h: "dirty seeded = []"
    "username (new_user ''alice'' ''alice@tool.com'') \<notin> set (map username (users (store seeded)))"
    "email (new_user ''alice'' ''alice@tool.com'') \<notin> set (map email (users (store seeded)))"
    "username (new_user ''alice'' ''alice2@tool.com'') = username (new_user ''alice'' ''alice@tool.com'')"
    by (simp_all add: seed_defs new_user_def)
  have n: "username (new_user ''alice'' ''alice@tool.com'') = ''alice''"
    by (simp add: new_user_def)
  show ?thesis
    using create_duplicate_username [OF h, of True] h(1-3) unfolding n by simp
qed

section \<open>Reading with a project filter\<close>



section \<open>Authentication\<close>

text \<open>
  C7: with the right username and a password whose hash is not the stored one,
  \<^verbatim>\<open>authenticate\<close> gives the caller exactly what it gives for a username that no user
  has: \<open>False\<close>, the page state as it was, and no toast.
\<close>

theorem authenticate_no_enumeration:
  assumes "find (\<lambda>u. username u = known) (users (store s)) = Some u"
    and "password_hash u \<noteq> hash_password wrong"
    and "unknown \<notin> set (map username (users (store s)))"
  shows "authenticate hash_password s st known wrong
           = authenticate hash_password s st unknown password \<and>
         authenticate hash_password s st known wrong = (False, st, [])"
proof -
  have "find (\<lambda>u. username u = unknown) (users (store s)) = None"
    using assms(3) by (auto simp: find_None_iff)
  then show ?thesis using assms(1,2) by (simp add: authenticate_def)
qed

theorem authenticate_no_enumeration_witness:
  "find (\<lambda>u. username u = ''admin'') (users (store seeded)) = Some (hd seed_users) \<and>
   password_hash (hd seed_users) \<noteq> seed_hash ''guess'' \<and>
   ''nobody'' \<notin> set (map username (users (store seeded))) \<and>
   authenticate seed_hash seeded signed_out ''admin'' ''guess''
     = authenticate seed_hash seeded signed_out ''nobody'' ''adminpass'' \<and>
   authenticate seed_hash seeded signed_out ''admin'' ''guess'' = (False, signed_out, [])"
proof -
  have h: "find (\<lambda>u. username u = ''admin'') (users (store seeded)) = Some (hd seed_users)"
    "password_hash (hd seed_users) \<noteq> seed_hash ''guess''"
    "''nobody'' \<notin> set (map username (users (store seeded)))"
    by (simp_all add: seeded_def seed_users_def seed_hash_def)
  show ?thesis
    using authenticate_no_enumeration [where s = seeded and known = "''admin''"
        and u = "hd seed_users" and hash_password = seed_hash and wrong = "''guess''"
        and unknown = "''nobody''" and st = signed_out and password = "''adminpass''"] h
    by blast
qed

section \<open>Move and log\<close>

text \<open>
  With hours entered, the log and the status assignment go into the one commit inside
  \<^verbatim>\<open>create\<close>. If it is carried out, \<^verbatim>\<open>update\<close> finds nothing left to write; if it
  fails, the rollback has dropped the assignment and \<^verbatim>\<open>update\<close> again finds nothing.
  Either way \<^verbatim>\<open>update\<close> returns \<^verbatim>\<open>True\<close> and the handler takes its success branch.
\<close>

lemma move_and_log_result:
  assumes "dirty s = []" and "hours_to_log > 0"
  shows "move_and_log create_ok update_ok now s st task new_status hours_to_log =
     (True,
      if create_ok
      then \<lparr>store = (store s)
              \<lparr>tasks := map (\<lambda>v. if t_id v = t_id task then task\<lparr>t_status := new_status\<rparr>
                                  else v) (tasks (store s)),
               time_logs := time_logs (store s) @
                 [(new_log hours_to_log (t_id task) (ss_user_id st) now)
                    \<lparr>l_id := next_id (map l_id (time_logs (store s)))\<rparr>]\<rparr>,
            dirty = []\<rparr>
      else s)"
proof (cases create_ok)
  case True
  then show ?thesis using assms
    by (simp add: move_and_log_def assign_def create_def update_def commit_def Let_def)
next
  case False
  have "rollback (assign s (ETask (task\<lparr>t_status := new_status\<rparr>))) = s"
    using assms(1) by (simp add: rollback_def assign_def)
  then show ?thesis using False assms
    by (simp add: move_and_log_def create_def update_def commit_def Let_def)
qed

lemma find_updated_task:
  assumes "task \<in> set ts" and "t_id task' = t_id task"
  shows "find (\<lambda>e. primary_key e = t_id task)
           (map ETask (map (\<lambda>v. if t_id v = t_id task then task' else v) ts))
         = Some (ETask task')"
  using assms by (induction ts) auto

text \<open>
  When the commit inside \<^verbatim>\<open>create\<close> is carried out, the handler does what C3 says:
  the logged hours go from \<open>H\<close> to \<open>H + 2.5\<close> and the stored task has status "Done".
\<close>

lemma advance_done_when_logged:
  assumes "dirty s = []" and "task \<in> set (tasks (store s))"
    and "get_total_logged_hours s (t_id task) = H"
    and "move_and_log True update_ok now s st task ''Done'' (5 / 2) = (ok, s')"
  shows "ok \<and> get_total_logged_hours s' (t_id task) = H + 5 / 2 \<and>
         read_by_id s' Task (t_id task) = Some (ETask (task\<lparr>t_status := ''Done''\<rparr>))"
proof -
  have r: "(ok, s') = (True,
      \<lparr>store = (store s)
         \<lparr>tasks := map (\<lambda>v. if t_id v = t_id task then task\<lparr>t_status := ''Done''\<rparr> else v)
                     (tasks (store s)),
          time_logs := time_logs (store s) @
            [(new_log (5 / 2) (t_id task) (ss_user_id st) now)
               \<lparr>l_id := next_id (map l_id (time_logs (store s)))\<rparr>]\<rparr>,
       dirty = []\<rparr>)"
    using move_and_log_result [OF assms(1), of "5 / 2" True update_ok now st task "''Done''"]
      assms(4)
    by simp
  have hours: "get_total_logged_hours s' (t_id task) = H + 5 / 2"
    using r assms(3) by (simp add: get_total_logged_hours_def new_log_def)
  have "find (\<lambda>e. primary_key e = t_id task)
          (map ETask (map (\<lambda>v. if t_id v = t_id task then task\<lparr>t_status := ''Done''\<rparr> else v)
             (tasks (store s)))) = Some (ETask (task\<lparr>t_status := ''Done''\<rparr>))"
    by (rule find_updated_task [OF assms(2)]) simp
  then have status:
    "read_by_id s' Task (t_id task) = Some (ETask (task\<lparr>t_status := ''Done''\<rparr>))"
    using r by (simp add: read_by_id_def)
  show ?thesis using r hours status by simp
qed

text \<open>
  C3, where the code departs from it: on the seeded store the task "Implement Kanban
  View" (no hours logged, status "In Progress") is moved to "Done" with 2.5 hours, and
  the engine fails the commit inside \<^verbatim>\<open>create\<close>. The handler ignores what \<^verbatim>\<open>create\<close>
  returns, \<^verbatim>\<open>update\<close> returns \<^verbatim>\<open>True\<close>, and the handler reports success, while the
  store is what it was: no hours logged, status "In Progress".
\<close>

theorem advance_success_without_log:
  "move_and_log False True seed_time seeded signed_in task_kanban ''Done'' (5 / 2)
     = (True, seeded) \<and>
   get_total_logged_hours seeded (t_id task_kanban) = 0 \<and>
   read_by_id seeded Task (t_id task_kanban) = Some (ETask task_kanban) \<and>
   t_status task_kanban = ''In Progress''"
proof -
  have d: "dirty seeded = []" "(0::rat) < 5 / 2" by (simp_all add: seeded_def)
  have m: "move_and_log False True seed_time seeded signed_in task_kanban ''Done'' (5 / 2)
     = (True, seeded)"
    using move_and_log_result [OF d, of False True seed_time signed_in task_kanban "''Done''"]
    by simp
  have r: "get_total_logged_hours seeded (t_id task_kanban) = 0"
    "read_by_id seeded Task (t_id task_kanban) = Some (ETask task_kanban)"
    "t_status task_kanban = ''In Progress''"
    by (simp_all add: get_total_logged_hours_def read_by_id_def seeded_def seed_tasks_def
          seed_time_logs_def task_kanban_def)
  show ?thesis using m r by (intro conjI)
qed




section \<open>Timeline dates\<close>

lemma gantt_row_of_raises: "\<exists>e. gantt_row_of s task = Inl e"
  by (cases "gantt_end task (dt_date (t_created_at task))")
     (simp_all add: gantt_row_of_def date_of_date_def Let_def)

text \<open>No chart is ever returned for a task list that is not empty.\<close>

lemma get_gantt_chart_raises:
  assumes "ts \<noteq> []"
  shows "\<exists>e. get_gantt_chart s ts = Inl e"
proof -
  obtain t ts' where ts: "ts = t # ts'" using assms by (cases ts) auto
  obtain e where "gantt_row_of s t = Inl e" using gantt_row_of_raises by blast
  then show ?thesis by (simp add: get_gantt_chart_def ts)
qed

text \<open>
  C9, where the code departs from it: for the seeded task "Implement Kanban View"
  (created on 2024-01-01, estimate 8 hours) line 331 computes an end, the same day, but
  line 336 then raises \<^verbatim>\<open>AttributeError\<close>, so \<^verbatim>\<open>get_gantt_chart\<close> returns no
  projection at all. For an unestimated task line 331 computes the day after the start,
  not the start plus zero hours, and for an estimate of 10^9 hours it raises
  \<^verbatim>\<open>OverflowError\<close>.
\<close>

theorem gantt_chart_raises:
  "get_gantt_chart seeded [task_kanban] = Inl AttributeError \<and>
   gantt_end task_kanban 738886 = Inr 738886 \<and>
   get_gantt_chart seeded [task_unestimated] = Inl AttributeError \<and>
   gantt_end task_unestimated 738886 = Inr 738887 \<and>
   gantt_end (task_kanban\<lparr>estimate_hours := 1000000000\<rparr>) 738886 = Inl OverflowError"
  by (simp add: get_gantt_chart_def gantt_row_of_def gantt_end_def date_of_date_def
        date_add_def timedelta_hours_def timedelta_days_def make_timedelta_def
        round_half_even_def task_kanban_def task_unestimated_def task_testing_def
        seed_time_def Let_def)

section \<open>Deleting a project\<close>

lemma fold_delete_task_logs:
  "time_logs (fold delete_task ts d)
     = filter (\<lambda>l. task_id l \<notin> Some ` t_id ` set ts) (time_logs d)"
proof (induction ts arbitrary: d)
  case Nil then show ?case by simp
next
  case (Cons t ts)
  have "filter (\<lambda>l. task_id l \<notin> Some ` t_id ` set ts) (time_logs (delete_task t d))
        = filter (\<lambda>l. task_id l \<notin> Some ` t_id ` set (t # ts)) (time_logs d)"
    by (auto simp: delete_task_def intro: filter_cong)
  then show ?case using Cons.IH [of "delete_task t d"] by simp
qed

lemma delete_task_keys:
  "map task_key (tasks (delete_task t d))
     = filter (\<lambda>k. fst k \<noteq> t_id t) (map task_key (tasks d))"
  by (simp add: delete_task_def task_key_def filter_map comp_def if_distrib cong: if_cong)

lemma fold_delete_task_keys:
  "map task_key (tasks (fold delete_task ts d))
     = filter (\<lambda>k. fst k \<notin> t_id ` set ts) (map task_key (tasks d))"
proof (induction ts arbitrary: d)
  case Nil then show ?case by simp
next
  case (Cons t ts)
  have "filter (\<lambda>k. fst k \<notin> t_id ` set ts) (filter (\<lambda>k. fst k \<noteq> t_id t) (map task_key (tasks d)))
        = filter (\<lambda>k. fst k \<notin> t_id ` set (t # ts)) (map task_key (tasks d))"
    by (auto intro: filter_cong)
  then show ?case using Cons.IH [of "delete_task t d"] by (simp add: delete_task_keys)
qed

lemma fold_delete_task_rest:
  "sprints (fold delete_task ts d) = sprints d \<and> risks (fold delete_task ts d) = risks d \<and>
   projects (fold delete_task ts d) = projects d \<and> users (fold delete_task ts d) = users d"
  by (induction ts arbitrary: d) (simp_all add: delete_task_def)

lemma delete_sprint_keys:
  "map task_key (tasks (delete_sprint sp d)) = map task_key (tasks d)"
  by (simp add: delete_sprint_def task_key_def comp_def if_distrib cong: if_cong)

lemma fold_delete_sprint:
  "sprints (fold delete_sprint sps d) = filter (\<lambda>x. s_id x \<notin> s_id ` set sps) (sprints d) \<and>
   map task_key (tasks (fold delete_sprint sps d)) = map task_key (tasks d) \<and>
   time_logs (fold delete_sprint sps d) = time_logs d \<and>
   risks (fold delete_sprint sps d) = risks d \<and>
   projects (fold delete_sprint sps d) = projects d \<and>
   users (fold delete_sprint sps d) = users d"
proof (induction sps arbitrary: d)
  case Nil then show ?case by simp
next
  case (Cons sp sps)
  have "filter (\<lambda>x. s_id x \<notin> s_id ` set sps) (filter (\<lambda>x. s_id x \<noteq> s_id sp) (sprints d))
        = filter (\<lambda>x. s_id x \<notin> s_id ` set (sp # sps)) (sprints d)"
    by (auto intro: filter_cong)
  moreover have "sprints (delete_sprint sp d) = filter (\<lambda>x. s_id x \<noteq> s_id sp) (sprints d)"
    "time_logs (delete_sprint sp d) = time_logs d" "risks (delete_sprint sp d) = risks d"
    "projects (delete_sprint sp d) = projects d" "users (delete_sprint sp d) = users d"
    by (simp_all add: delete_sprint_def)
  ultimately show ?case using Cons.IH [of "delete_sprint sp d"] by (simp add: delete_sprint_keys)
qed

lemma fold_delete_risk:
  "risks (fold delete_risk rs d) = filter (\<lambda>x. r_id x \<notin> r_id ` set rs) (risks d) \<and>
   tasks (fold delete_risk rs d) = tasks d \<and>
   time_logs (fold delete_risk rs d) = time_logs d \<and>
   sprints (fold delete_risk rs d) = sprints d \<and>
   projects (fold delete_risk rs d) = projects d \<and>
   users (fold delete_risk rs d) = users d"
proof (induction rs arbitrary: d)
  case Nil then show ?case by simp
next
  case (Cons r rs)
  have "filter (\<lambda>x. r_id x \<notin> r_id ` set rs) (filter (\<lambda>x. r_id x \<noteq> r_id r) (risks d))
        = filter (\<lambda>x. r_id x \<notin> r_id ` set (r # rs)) (risks d)"
    by (auto intro: filter_cong)
  then show ?case using Cons.IH [of "delete_risk r d"] by (simp add: delete_risk_def)
qed

text \<open>With distinct keys, removing the keys of the selected rows removes exactly those rows.\<close>

lemma filter_by_selected_keys:
  assumes "distinct (map key xs)"
  shows "filter (\<lambda>x. key x \<notin> key ` set (filter P xs)) xs = filter (\<lambda>x. \<not> P x) xs"
proof (rule filter_cong [OF refl])
  fix x assume x: "x \<in> set xs"
  have inj: "inj_on key (set xs)" using assms by (simp add: distinct_map)
  show "(key x \<notin> key ` set (filter P xs)) = (\<not> P x)"
  proof
    assume "key x \<notin> key ` set (filter P xs)"
    then show "\<not> P x" using x by auto
  next
    assume np: "\<not> P x"
    show "key x \<notin> key ` set (filter P xs)"
    proof
      assume "key x \<in> key ` set (filter P xs)"
      then obtain y where y: "y \<in> set xs" "P y" "key y = key x" by auto
      then have "y = x" using inj x by (auto dest: inj_onD)
      then show False using y np by simp
    qed
  qed
qed

lemma delete_project_tables:
  "time_logs (delete_project p d)
     = filter (\<lambda>l. task_id l \<notin>
                 Some ` t_id ` set (filter (\<lambda>t. t_project_id t = Some (p_id p)) (tasks d)))
         (time_logs d)"
  "map task_key (tasks (delete_project p d))
     = filter (\<lambda>k. fst k \<notin> t_id ` set (filter (\<lambda>t. t_project_id t = Some (p_id p)) (tasks d)))
         (map task_key (tasks d))"
  "sprints (delete_project p d)
     = filter (\<lambda>x. s_id x \<notin> s_id ` set (filter (\<lambda>s. s_project_id s = Some (p_id p)) (sprints d)))
         (sprints d)"
  "risks (delete_project p d)
     = filter (\<lambda>x. r_id x \<notin> r_id ` set (filter (\<lambda>r. r_project_id r = Some (p_id p)) (risks d)))
         (risks d)"
  "projects (delete_project p d) = filter (\<lambda>x. p_id x \<noteq> p_id p) (projects d)"
  "users (delete_project p d) = users d"
  by (simp_all add: delete_project_def Let_def fold_delete_risk fold_delete_sprint
        fold_delete_task_logs fold_delete_task_keys fold_delete_task_rest)


lemma delete_project_result:
  assumes "dirty s = []"
  shows "delete engine_ok s (EProject p) =
     (if engine_ok \<and> p_id p \<in> set (map p_id (projects (store s)))
      then (True, \<lparr>store = delete_project p (store s), dirty = []\<rparr>)
      else (False, s))"
  using assms by (simp add: delete_def commit_def rollback_def)

text \<open>
  C2: deleting a project either fails and leaves the session as it was, or succeeds (when
  the engine carries the commit out and the project is stored) and then no task, sprint
  or risk of that project is left, no time log of one of its tasks, and not the project
  itself; the rows of other projects all stay, so that exactly the N tasks, M sprints
  and K risks of the project are gone. Primary keys are distinct, and nothing else is
  pending in the session.
\<close>

theorem delete_project_cascade:
  assumes "dirty s = []"
    and "distinct (map t_id (tasks (store s)))"
    and "distinct (map s_id (sprints (store s)))"
    and "distinct (map r_id (risks (store s)))"
    and "delete engine_ok s (EProject p) = (ok, s')"
  shows "ok = (engine_ok \<and> p_id p \<in> set (map p_id (projects (store s)))) \<and>
    (\<not> ok \<longrightarrow> s' = s) \<and>
    (ok \<longrightarrow>
       (\<forall>t\<in>set (tasks (store s')). t_project_id t \<noteq> Some (p_id p)) \<and>
       (\<forall>sp\<in>set (sprints (store s')). s_project_id sp \<noteq> Some (p_id p)) \<and>
       (\<forall>r\<in>set (risks (store s')). r_project_id r \<noteq> Some (p_id p)) \<and>
       (\<forall>l\<in>set (time_logs (store s')). \<forall>t\<in>set (tasks (store s)).
           t_project_id t = Some (p_id p) \<longrightarrow> task_id l \<noteq> Some (t_id t)) \<and>
       (\<forall>x\<in>set (projects (store s')). p_id x \<noteq> p_id p) \<and>
       map task_key (tasks (store s'))
         = map task_key (filter (\<lambda>t. t_project_id t \<noteq> Some (p_id p)) (tasks (store s))) \<and>
       sprints (store s') = filter (\<lambda>sp. s_project_id sp \<noteq> Some (p_id p)) (sprints (store s)) \<and>
       risks (store s') = filter (\<lambda>r. r_project_id r \<noteq> Some (p_id p)) (risks (store s)) \<and>
       length (tasks (store s')) + length (sprints (store s')) + length (risks (store s'))
         + (length (filter (\<lambda>t. t_project_id t = Some (p_id p)) (tasks (store s)))
            + length (filter (\<lambda>sp. s_project_id sp = Some (p_id p)) (sprints (store s)))
            + length (filter (\<lambda>r. r_project_id r = Some (p_id p)) (risks (store s))))
         = length (tasks (store s)) + length (sprints (store s)) + length (risks (store s)))"
proof -
  let ?d = "store s"
  let ?pt = "\<lambda>t. t_project_id t = Some (p_id p)"
  let ?ps = "\<lambda>sp. s_project_id sp = Some (p_id p)"
  let ?pr = "\<lambda>r. r_project_id r = Some (p_id p)"
  have res: "(ok, s') =
     (if engine_ok \<and> p_id p \<in> set (map p_id (projects ?d))
      then (True, \<lparr>store = delete_project p ?d, dirty = []\<rparr>)
      else (False, s))"
    using delete_project_result [OF assms(1), of engine_ok p] assms(5) by simp
  have ok: "ok = (engine_ok \<and> p_id p \<in> set (map p_id (projects ?d)))"
    using res by (simp split: if_splits)
  have fail: "\<not> ok \<Longrightarrow> s' = s"
    using res by (simp split: if_splits)
  have s': "ok \<Longrightarrow> store s' = delete_project p ?d"
    using res by (auto split: if_splits)
  have keys: "map task_key (tasks (delete_project p ?d)) = map task_key (filter (\<lambda>t. \<not> ?pt t) (tasks ?d))"
  proof -
    have "map task_key (tasks (delete_project p ?d))
          = map task_key (filter (\<lambda>t. t_id t \<notin> t_id ` set (filter ?pt (tasks ?d))) (tasks ?d))"
      by (simp add: delete_project_tables(2) filter_map comp_def task_key_def)
    then show ?thesis using filter_by_selected_keys [OF assms(2), of ?pt] by simp
  qed
  have sps: "sprints (delete_project p ?d) = filter (\<lambda>sp. \<not> ?ps sp) (sprints ?d)"
    using filter_by_selected_keys [OF assms(3), of ?ps] by (simp add: delete_project_tables(3))
  have rs: "risks (delete_project p ?d) = filter (\<lambda>r. \<not> ?pr r) (risks ?d)"
    using filter_by_selected_keys [OF assms(4), of ?pr] by (simp add: delete_project_tables(4))
  have no_task: "\<forall>t\<in>set (tasks (delete_project p ?d)). \<not> ?pt t"
  proof
    fix t assume "t \<in> set (tasks (delete_project p ?d))"
    then have "task_key t \<in> set (map task_key (tasks (delete_project p ?d)))" by simp
    then have "task_key t \<in> set (map task_key (filter (\<lambda>t. \<not> ?pt t) (tasks ?d)))"
      by (simp only: keys)
    then show "\<not> ?pt t" by (auto simp: task_key_def)
  qed
  have no_log: "\<forall>l\<in>set (time_logs (delete_project p ?d)). \<forall>t\<in>set (tasks ?d).
      ?pt t \<longrightarrow> task_id l \<noteq> Some (t_id t)"
    by (auto simp: delete_project_tables(1))
  have no_proj: "\<forall>x\<in>set (projects (delete_project p ?d)). p_id x \<noteq> p_id p"
    by (simp add: delete_project_tables(5))
  have len_t: "length (tasks (delete_project p ?d)) + length (filter ?pt (tasks ?d))
      = length (tasks ?d)"
  proof -
    have "length (tasks (delete_project p ?d)) = length (map task_key (tasks (delete_project p ?d)))"
      by simp
    also have "\<dots> = length (filter (\<lambda>t. \<not> ?pt t) (tasks ?d))" by (simp only: keys length_map)
    finally show ?thesis using sum_length_filter_compl [of ?pt "tasks ?d"] by simp
  qed
  have len_s: "length (sprints (delete_project p ?d)) + length (filter ?ps (sprints ?d))
      = length (sprints ?d)"
    using sum_length_filter_compl [of ?ps "sprints ?d"] by (simp add: sps)
  have len_r: "length (risks (delete_project p ?d)) + length (filter ?pr (risks ?d))
      = length (risks ?d)"
    using sum_length_filter_compl [of ?pr "risks ?d"] by (simp add: rs)
  show ?thesis
  proof (intro conjI impI)
    show "ok = (engine_ok \<and> p_id p \<in> set (map p_id (projects ?d)))" by (rule ok)
    show "s' = s" if "\<not> ok" using that by (rule fail)
  next
    assume o: ok
    show "\<forall>t\<in>set (tasks (store s')). t_project_id t \<noteq> Some (p_id p)"
      using no_task by (simp add: s' [OF o])
    show "\<forall>sp\<in>set (sprints (store s')). s_project_id sp \<noteq> Some (p_id p)"
      by (simp add: s' [OF o] sps)
    show "\<forall>r\<in>set (risks (store s')). r_project_id r \<noteq> Some (p_id p)"
      by (simp add: s' [OF o] rs)
    show "\<forall>l\<in>set (time_logs (store s')). \<forall>t\<in>set (tasks ?d).
           t_project_id t = Some (p_id p) \<longrightarrow> task_id l \<noteq> Some (t_id t)"
      using no_log by (simp add: s' [OF o])
    show "\<forall>x\<in>set (projects (store s')). p_id x \<noteq> p_id p"
      using no_proj by (simp add: s' [OF o])
    show "map task_key (tasks (store s'))
         = map task_key (filter (\<lambda>t. t_project_id t \<noteq> Some (p_id p)) (tasks ?d))"
      using keys by (simp add: s' [OF o])
    show "sprints (store s') = filter (\<lambda>sp. s_project_id sp \<noteq> Some (p_id p)) (sprints ?d)"
      by (simp add: s' [OF o] sps)
    show "risks (store s') = filter (\<lambda>r. r_project_id r \<noteq> Some (p_id p)) (risks ?d)"
      by (simp add: s' [OF o] rs)
    show "length (tasks (store s')) + length (sprints (store s')) + length (risks (store s'))
         + (length (filter ?pt (tasks ?d)) + length (filter ?ps (sprints ?d))
            + length (filter ?pr (risks ?d)))
         = length (tasks ?d) + length (sprints ?d) + length (risks ?d)"
      using len_t len_s len_r by (simp only: s' [OF o])
  qed
qed

theorem delete_project_cascade_witness:
  "dirty seeded = [] \<and>
   distinct (map t_id (tasks (store seeded))) \<and>
   distinct (map s_id (sprints (store seeded))) \<and>
   distinct (map r_id (risks (store seeded))) \<and>
   fst (delete True seeded (EProject project_core)) = True \<and>
   map task_key (tasks (store (snd (delete True seeded (EProject project_core)))))
     = [(3, Some 2)] \<and>
   sprints (store (snd (delete True seeded (EProject project_core)))) = [] \<and>
   risks (store (snd (delete True seeded (EProject project_core)))) = [] \<and>
   time_logs (store (snd (delete True seeded (EProject project_core)))) = [] \<and>
   snd (delete False seeded (EProject project_core)) = seeded"
proof -
  have h: "dirty seeded = []"
    "distinct (map t_id (tasks (store seeded)))"
    "distinct (map s_id (sprints (store seeded)))"
    "distinct (map r_id (risks (store seeded)))"
    by (simp_all add: seed_defs)
  have stored: "p_id project_core \<in> set (map p_id (projects (store seeded)))"
    by (simp add: seed_defs)
  have pt: "filter (\<lambda>t. t_project_id t = Some (p_id project_core)) (tasks (store seeded))
      = [task_kanban, task_schema]"
    by (simp add: seed_defs)
  have "time_logs (delete_project project_core (store seeded))
      = filter (\<lambda>l. task_id l \<notin> Some ` t_id ` set [task_kanban, task_schema])
          (time_logs (store seeded))"
    by (simp only: delete_project_tables(1) pt)
  also have "\<dots> = []"
    by (simp add: seed_defs)
  finally have logs:
    "time_logs (store (snd (delete True seeded (EProject project_core)))) = []"
    using stored by (simp add: delete_project_result [OF h(1)])
  have t: "map task_key (filter (\<lambda>t. t_project_id t \<noteq> Some (p_id project_core))
              (tasks (store seeded))) = [(3, Some 2)]"
    "filter (\<lambda>sp. s_project_id sp \<noteq> Some (p_id project_core)) (sprints (store seeded)) = []"
    "filter (\<lambda>r. r_project_id r \<noteq> Some (p_id project_core)) (risks (store seeded)) = []"
    by (simp_all add: seed_defs task_key_def)
  show ?thesis
    using delete_project_cascade [OF h prod.collapse [symmetric], of True project_core]
      delete_project_cascade [OF h prod.collapse [symmetric], of False project_core]
      h stored logs t
    by simp
qed

section \<open>The WBS view\<close>

lemma dependent_ids_iff:
  "n \<in> dependent_ids ts \<longleftrightarrow> n \<noteq> 0 \<and> (\<exists>c\<in>set ts. dependency_task_id c = Some n)"
proof
  assume "n \<in> dependent_ids ts"
  then obtain c where c: "c \<in> set ts" "truthy (dependency_task_id c)"
      "n = the (dependency_task_id c)"
    by (auto simp: dependent_ids_def)
  then show "n \<noteq> 0 \<and> (\<exists>c\<in>set ts. dependency_task_id c = Some n)"
    by (cases "dependency_task_id c") auto
next
  assume "n \<noteq> 0 \<and> (\<exists>c\<in>set ts. dependency_task_id c = Some n)"
  then obtain c where c: "c \<in> set ts" "dependency_task_id c = Some n" "n \<noteq> 0" by auto
  then have "truthy (dependency_task_id c)" "n = the (dependency_task_id c)" by simp_all
  then show "n \<in> dependent_ids ts"
    using c(1) unfolding dependent_ids_def by (auto intro!: image_eqI [where x = c])
qed

lemma top_level_no_dependents:
  assumes "t \<in> set (top_level_tasks ts)" and "t_id t \<noteq> 0"
  shows "filter (\<lambda>c. dependency_task_id c = Some (t_id t)) ts = []"
proof -
  have "t_id t \<notin> dependent_ids ts" using assms(1) by (simp add: top_level_tasks_def)
  then have "\<forall>c\<in>set ts. dependency_task_id c \<noteq> Some (t_id t)"
    using assms(2) by (simp add: dependent_ids_iff)
  then show ?thesis by (simp add: filter_empty_conv)
qed

lemma render_top_level:
  assumes "t \<in> set (top_level_tasks ts)" and "t_id t \<noteq> 0"
  shows "render_wbs_node (Suc n) ts t level = Some [Node level t]"
  by (simp add: top_level_no_dependents [OF assms])

lemma those_map_Some: "those (map (\<lambda>x. Some (f x)) xs) = Some (map f xs)"
  by (induction xs) simp_all

lemma wbs_flat:
  assumes "\<forall>t\<in>set ts. t_id t \<noteq> 0"
  shows "wbs (Suc n) ts =
     Some (if ts = [] then [Info ''No tasks available to generate WBS.'']
           else if top_level_tasks ts = [] then [Warning
             ''No clear top-level tasks or dependencies found. All tasks might be independent.'']
           else Info ''Tasks are shown in order of completion (dependencies first).''
                # map (Node 0) (top_level_tasks ts))"
proof -
  have sub: "set (top_level_tasks ts) \<subseteq> set ts" by (auto simp: top_level_tasks_def)
  have "map (\<lambda>task. render_wbs_node (Suc n) ts task 0) (top_level_tasks ts)
        = map (\<lambda>task. Some [Node 0 task]) (top_level_tasks ts)"
    using assms sub by (intro map_cong refl render_top_level) auto
  then have "those (map (\<lambda>task. render_wbs_node (Suc n) ts task 0) (top_level_tasks ts))
        = Some (map (\<lambda>task. [Node 0 task]) (top_level_tasks ts))"
    by (simp only: those_map_Some)
  moreover have "concat (map (\<lambda>task. [Node 0 task]) (top_level_tasks ts))
        = map (Node 0) (top_level_tasks ts)"
    by (induction "top_level_tasks ts") (simp_all add: concat_map_singleton)
  ultimately show ?thesis by (simp add: wbs_def)
qed

lemma the_tasks_read_all:
  "the_tasks (read_all s Task pid)
     = (if truthy pid then filter (\<lambda>t. t_project_id t = pid) (tasks (store s))
        else tasks (store s))"
proof -
  have a: "\<And>xs. the_tasks (map ETask xs) = xs"
    subgoal for xs by (induction xs) simp_all
    done
  have b: "\<And>xs. the_tasks (filter (\<lambda>e. project_id e = pid) (map ETask xs))
             = filter (\<lambda>t. t_project_id t = pid) xs"
    subgoal for xs by (induction xs) simp_all
    done
  show ?thesis by (simp add: read_all_def a b)
qed

text \<open>
  C5, where the code departs from it: for the chain A, B, C (C depends on B, B on A) the
  root filter of line 845 drops A, because B's dependency reference points to it, and
  with it every task; the page shows the notice "No clear top-level tasks or
  dependencies found. All tasks might be independent." and no node. Started at A, the
  recursion of lines 848-855 gives what the claim says: A, B below it, C below B. The
  seeded project, in which one task depends on another, gets the same notice.
\<close>

theorem wbs_chain_shows_no_tree:
  "top_level_tasks chain_tasks = [] \<and>
   wbs 3 chain_tasks = Some [Warning
     ''No clear top-level tasks or dependencies found. All tasks might be independent.''] \<and>
   render_wbs_node 3 chain_tasks (wbs_task 1 ''A'' None) 0
     = Some [Node 0 (wbs_task 1 ''A'' None), Node 1 (wbs_task 2 ''B'' (Some 1)),
             Node 2 (wbs_task 3 ''C'' (Some 2))] \<and>
   gantt_page_wbs 3 seeded 1 = Some (seeded, [Warning
     ''No clear top-level tasks or dependencies found. All tasks might be independent.''])"
proof -
  have chain: "top_level_tasks chain_tasks = []"
    "wbs 3 chain_tasks = Some [Warning
       ''No clear top-level tasks or dependencies found. All tasks might be independent.'']"
    "render_wbs_node 3 chain_tasks (wbs_task 1 ''A'' None) 0
       = Some [Node 0 (wbs_task 1 ''A'' None), Node 1 (wbs_task 2 ''B'' (Some 1)),
               Node 2 (wbs_task 3 ''C'' (Some 2))]"
    by (simp_all add: wbs_def top_level_tasks_def dependent_ids_def chain_tasks_def
          wbs_task_def numeral_3_eq_3)
  have ts: "the_tasks (read_all seeded Task (Some 1)) = [task_kanban, task_schema]"
    by (simp add: the_tasks_read_all) (simp add: seed_defs)
  have "wbs 3 [task_kanban, task_schema] = Some [Warning
       ''No clear top-level tasks or dependencies found. All tasks might be independent.'']"
    by (simp add: wbs_def top_level_tasks_def dependent_ids_def task_kanban_def
          task_schema_def)
  then have page: "gantt_page_wbs 3 seeded 1 = Some (seeded, [Warning
     ''No clear top-level tasks or dependencies found. All tasks might be independent.''])"
    by (simp add: gantt_page_wbs_def ts)
  show ?thesis using chain page by (intro conjI)
qed

text \<open>
  C6, as stated, at the cycle in which A depends on C, C on B and B on A: the builder
  returns, and what it reports is the notice that no top-level task was found, which
  names no cycle.
\<close>

theorem wbs_cycle_counterexample:
  "wbs 1000 cyclic_tasks = Some [Warning
     ''No clear top-level tasks or dependencies found. All tasks might be independent.'']"
  by (simp add: wbs_def top_level_tasks_def dependent_ids_def cyclic_tasks_def wbs_task_def)

text \<open>
  C6, amended: for every set of tasks (primary keys are not 0), cyclic or not, the
  builder returns with a recursion depth of one call: it shows the notice for an empty
  set, the notice that no top-level task was found, or the heading and one node at level
  0 per root. A task that has a dependency reference, as every task on a cycle has, is
  no root and is not shown. No cycle is detected or reported.
\<close>

theorem wbs_terminates_without_cycle_report:
  assumes "0 \<notin> set (map t_id ts)"
  shows "wbs (Suc n) ts =
     Some (if ts = [] then [Info ''No tasks available to generate WBS.'']
           else if top_level_tasks ts = [] then [Warning
             ''No clear top-level tasks or dependencies found. All tasks might be independent.'']
           else Info ''Tasks are shown in order of completion (dependencies first).''
                # map (Node 0) (top_level_tasks ts)) \<and>
    (\<forall>t\<in>set ts. truthy (dependency_task_id t) \<longrightarrow> t \<notin> set (top_level_tasks ts))"
proof -
  have "\<forall>t\<in>set ts. t_id t \<noteq> 0" using assms by auto
  then show ?thesis using wbs_flat [of ts n] by (simp add: top_level_tasks_def)
qed

theorem wbs_terminates_without_cycle_report_witness:
  "0 \<notin> set (map t_id cyclic_tasks) \<and>
   wbs 1 cyclic_tasks = Some [Warning
     ''No clear top-level tasks or dependencies found. All tasks might be independent.''] \<and>
   0 \<notin> set (map t_id (cyclic_tasks @ [wbs_task 4 ''D'' None])) \<and>
   wbs 1 (cyclic_tasks @ [wbs_task 4 ''D'' None])
     = Some [Info ''Tasks are shown in order of completion (dependencies first).'',
             Node 0 (wbs_task 4 ''D'' None)]"
proof -
  have h: "0 \<notin> set (map t_id cyclic_tasks)"
    "0 \<notin> set (map t_id (cyclic_tasks @ [wbs_task 4 ''D'' None]))"
    by (simp_all add: cyclic_tasks_def wbs_task_def)
  have t: "top_level_tasks cyclic_tasks = []"
    "top_level_tasks (cyclic_tasks @ [wbs_task 4 ''D'' None]) = [wbs_task 4 ''D'' None]"
    "cyclic_tasks \<noteq> []"
    by (simp_all add: top_level_tasks_def dependent_ids_def cyclic_tasks_def wbs_task_def)
  show ?thesis
    using wbs_terminates_without_cycle_report [OF h(1), of 0]
      wbs_terminates_without_cycle_report [OF h(2), of 0] h t
    by simp
qed

section \<open>Weekly hours\<close>

lemma weekday_iso: "weekday x = isoweekday x - 1"
  unfolding weekday_def isoweekday_def by presburger

lemma to_period_W_iso: "to_period_W x = (iso_week x, iso_week x + 6)"
  by (simp add: to_period_W_def iso_week_def weekday_iso Let_def)

lemma week_key_eq:
  "week_key r = week_key r' \<longleftrightarrow>
     lr_user r = lr_user r' \<and> iso_week (lr_date r) = iso_week (lr_date r')"
  by (simp add: week_key_def to_period_W_iso)

lemma weekly_summary_keys:
  "map fst (weekly_summary rows) = sort (remdups (map week_key rows))"
  by (simp add: weekly_summary_def comp_def)

lemma weekly_summary_distinct: "distinct (map fst (weekly_summary rows))"
  by (simp add: weekly_summary_keys)

lemma weekly_summary_mem:
  "(k, v) \<in> set (weekly_summary rows) \<longleftrightarrow>
     k \<in> week_key ` set rows \<and>
     v = sum_list (map lr_hours (filter (\<lambda>r. week_key r = k) rows))"
  by (auto simp: weekly_summary_def)

lemma log_data_rows:
  "log_data d logs = Inr rows \<longleftrightarrow> list_all2 (\<lambda>l r. log_row_of d l = Inr r) logs rows"
proof (induction logs arbitrary: rows)
  case Nil then show ?case by auto
next
  case (Cons l logs)
  show ?case
  proof (cases "log_row_of d l")
    case (Inl e) then show ?thesis by (auto simp: list_all2_Cons1)
  next
    case (Inr r)
    then show ?thesis using Cons.IH
      by (cases "log_data d logs") (auto simp: list_all2_Cons1)
  qed
qed

lemma iso_week_le: "iso_week x \<le> x \<and> x < iso_week x + 7"
  unfolding iso_week_def isoweekday_def by simp

lemma iso_week_monday: "isoweekday (iso_week x) = 1"
proof -
  have "iso_week x - 1 = (x - 1) - (x - 1) mod 7"
    by (simp add: iso_week_def isoweekday_def)
  also have "\<dots> = 7 * ((x - 1) div 7)"
    by (rule minus_mod_eq_mult_div)
  finally have "(iso_week x - 1) mod 7 = 0" by simp
  then show ?thesis by (simp add: isoweekday_def)
qed

lemma iso_week_next: "iso_week (x + 7) = iso_week x + 7"
proof -
  have "x + 7 - 1 = (x - 1) + 7" by simp
  then have "(x + 7 - 1) mod 7 = (x - 1) mod 7" by (simp only: mod_add_self2)
  then show ?thesis by (simp add: iso_week_def isoweekday_def)
qed

lemma log_row_of_fields:
  assumes "log_row_of d l = Inr r"
  shows "lr_hours r = hours l \<and> lr_date r = dt_date (log_date l) \<and>
         (\<exists>u. related u_id (users d) (l_user_id l) = Some u \<and> lr_user r = username u)"
proof -
  obtain u where u: "related u_id (users d) (l_user_id l) = Some u"
    using assms by (cases "related u_id (users d) (l_user_id l)") (simp_all add: log_row_of_def)
  obtain t where t: "related t_id (tasks d) (task_id l) = Some t"
    using assms u by (cases "related t_id (tasks d) (task_id l)") (simp_all add: log_row_of_def)
  obtain p where p: "related p_id (projects d) (t_project_id t) = Some p"
    using assms u t
    by (cases "related p_id (projects d) (t_project_id t)") (simp_all add: log_row_of_def)
  have "r = \<lparr>lr_user = username u, lr_task_id = t_id t, lr_task_title = title t,
             lr_project = p_name p, lr_hours = hours l, lr_date = dt_date (log_date l)\<rparr>"
    using assms u t p by (simp add: log_row_of_def)
  then show ?thesis using u by simp
qed

lemma weekly_summary_two_weeks:
  assumes "lr_user r2 = lr_user r1" and "lr_user r3 = lr_user r1"
    and "iso_week (lr_date r2) = iso_week (lr_date r1)"
    and "iso_week (lr_date r3) = iso_week (lr_date r1) + 7"
  shows "weekly_summary [r1, r2, r3]
           = [(week_key r1, lr_hours r1 + lr_hours r2), (week_key r3, lr_hours r3)]"
proof -
  have k12: "week_key r2 = week_key r1" using assms(1,3) by (simp add: week_key_eq)
  have k13: "week_key r3 \<noteq> week_key r1" using assms(4) by (simp add: week_key_eq)
  have le: "week_key r1 \<le> week_key r3"
    using assms(2,4) by (simp add: week_key_def to_period_W_iso less_eq_prod_def)
  have keys: "sort (remdups (map week_key [r1, r2, r3])) = [week_key r1, week_key r3]"
    using k12 k13 le by (auto simp: insort_is_Cons)
  show ?thesis
    unfolding weekly_summary_def keys using k12 k13 by auto
qed

text \<open>
  C8: each time log gives one row with its hours, the date of its log date and the
  username of its user. The weekly summary has one bucket for each pair of user and
  weekly period that occurs, and none twice; the value of a bucket is the sum of the
  hours of the rows with that pair. Two rows have the same pair exactly when they have
  the same user and their dates lie in the same ISO week (Monday to Sunday), and the
  date seven days on lies in the following ISO week. So two logs of one user in one ISO
  week and a third in the following week give two buckets: the sum of the first two,
  and the third.
\<close>

theorem weekly_rollup:
  assumes "log_data d logs = Inr rows"
  shows "list_all2 (\<lambda>l r. lr_hours r = hours l \<and> lr_date r = dt_date (log_date l) \<and>
             (\<exists>u. related u_id (users d) (l_user_id l) = Some u \<and> lr_user r = username u))
           logs rows \<and>
         distinct (map fst (weekly_summary rows)) \<and>
         (\<forall>k v. (k, v) \<in> set (weekly_summary rows) \<longleftrightarrow>
            (\<exists>r\<in>set rows. k = week_key r) \<and>
            v = sum_list (map lr_hours (filter (\<lambda>r. week_key r = k) rows))) \<and>
         (\<forall>r r'. week_key r = week_key r' \<longleftrightarrow>
            lr_user r = lr_user r' \<and> iso_week (lr_date r) = iso_week (lr_date r')) \<and>
         (\<forall>x. isoweekday (iso_week x) = 1 \<and> iso_week x \<le> x \<and> x < iso_week x + 7 \<and>
              iso_week (x + 7) = iso_week x + 7) \<and>
         (\<forall>r1 r2 r3.
            lr_user r2 = lr_user r1 \<and> lr_user r3 = lr_user r1 \<and>
            iso_week (lr_date r2) = iso_week (lr_date r1) \<and>
            iso_week (lr_date r3) = iso_week (lr_date r1) + 7 \<longrightarrow>
            weekly_summary [r1, r2, r3]
              = [(week_key r1, lr_hours r1 + lr_hours r2), (week_key r3, lr_hours r3)])"
proof (intro conjI allI impI)
  have "list_all2 (\<lambda>l r. log_row_of d l = Inr r) logs rows"
    using assms by (simp only: log_data_rows)
  then show "list_all2 (\<lambda>l r. lr_hours r = hours l \<and> lr_date r = dt_date (log_date l) \<and>
             (\<exists>u. related u_id (users d) (l_user_id l) = Some u \<and> lr_user r = username u))
           logs rows"
    by (rule list_all2_mono) (rule log_row_of_fields)
  show "distinct (map fst (weekly_summary rows))" by (rule weekly_summary_distinct)
  show "(k, v) \<in> set (weekly_summary rows) \<longleftrightarrow>
            (\<exists>r\<in>set rows. k = week_key r) \<and>
            v = sum_list (map lr_hours (filter (\<lambda>r. week_key r = k) rows))" for k v
    unfolding weekly_summary_mem by blast
  show "week_key r = week_key r' \<longleftrightarrow>
            lr_user r = lr_user r' \<and> iso_week (lr_date r) = iso_week (lr_date r')" for r r'
    by (rule week_key_eq)
  show "isoweekday (iso_week x) = 1" for x by (rule iso_week_monday)
  show "iso_week x \<le> x" for x using iso_week_le [of x] by simp
  show "x < iso_week x + 7" for x using iso_week_le [of x] by simp
  show "iso_week (x + 7) = iso_week x + 7" for x by (rule iso_week_next)
  show "weekly_summary [r1, r2, r3]
              = [(week_key r1, lr_hours r1 + lr_hours r2), (week_key r3, lr_hours r3)]"
    if "lr_user r2 = lr_user r1 \<and> lr_user r3 = lr_user r1 \<and>
        iso_week (lr_date r2) = iso_week (lr_date r1) \<and>
        iso_week (lr_date r3) = iso_week (lr_date r1) + 7" for r1 r2 r3
    using that by (intro weekly_summary_two_weeks) simp_all
qed


theorem weekly_rollup_witness:
  "log_data reporting (time_logs reporting)
     = Inr [week_row 2 ''Design Database Schema'' 2 738886,
            week_row 1 ''Implement Kanban View'' (7 / 2) 738888,
            week_row 2 ''Design Database Schema'' 1 738893] \<and>
   iso_week 738888 = iso_week 738886 \<and> iso_week 738893 = iso_week 738886 + 7 \<and>
   weekly_summary [week_row 2 ''Design Database Schema'' 2 738886,
                   week_row 1 ''Implement Kanban View'' (7 / 2) 738888,
                   week_row 2 ''Design Database Schema'' 1 738893]
     = [((''admin'', 738886, 738892), 11 / 2), ((''admin'', 738893, 738899), 1)]"
proof -
  let ?r1 = "week_row 2 ''Design Database Schema'' 2 738886"
  let ?r2 = "week_row 1 ''Implement Kanban View'' (7 / 2) 738888"
  let ?r3 = "week_row 2 ''Design Database Schema'' 1 738893"
  have data: "log_data reporting (time_logs reporting) = Inr [?r1, ?r2, ?r3]"
    by (simp add: reporting_def week_logs_def log_row_of_def related_def week_row_def
          seeded_def seed_users_def seed_tasks_def seed_projects_def task_kanban_def
          task_schema_def task_testing_def project_core_def project_marketing_def)
  have w: "iso_week 738888 = iso_week 738886" "iso_week 738893 = iso_week 738886 + 7"
    "iso_week 738886 = 738886"
    by (simp_all add: iso_week_def isoweekday_def)
  have scenario: "lr_user ?r2 = lr_user ?r1 \<and> lr_user ?r3 = lr_user ?r1 \<and>
      iso_week (lr_date ?r2) = iso_week (lr_date ?r1) \<and>
      iso_week (lr_date ?r3) = iso_week (lr_date ?r1) + 7"
    using w by (simp add: week_row_def)
  note r = weekly_rollup [OF data]
  note two = r [THEN conjunct2, THEN conjunct2, THEN conjunct2, THEN conjunct2, THEN conjunct2,
      rule_format, OF scenario]
  have keys: "week_key ?r1 = (''admin'', 738886, 738892)"
    "week_key ?r3 = (''admin'', 738893, 738899)"
    "lr_hours ?r1 + lr_hours ?r2 = 11 / 2" "lr_hours ?r3 = 1"
    using w by (simp_all add: week_key_def to_period_W_iso week_row_def)
  show ?thesis using data w(1,2) two unfolding keys by (intro conjI)
qed

end
